theory Spec2Isabelle
  imports Complex_Main "HOL-Library.AList" "HOL-Library.Log_Nat"
begin

section \<open>The cache of library-admin: data model\<close>

text \<open>
  The development follows \<^verbatim>\<open>backend/cache/InMemoryCache.js\<close> (the server tier, suffix
  \<open>_js\<close> where it differs) and \<^verbatim>\<open>src/utils/cache/InMemoryCache.ts\<close> (the browser tier,
  suffix \<open>_ts\<close>), together with \<^verbatim>\<open>backend/cache/CacheFactory.js\<close>.

  JavaScript numbers are modelled as \<open>int\<close> (timestamps in milliseconds, TTLs in whole
  seconds, sizes) and counters as \<open>nat\<close>; \<open>NaN\<close>, infinities and fractional TTLs are
  outside the model. The hit rate is computed in doubles. Strings are \<open>string\<close>.
\<close>

type_synonym key = string

text \<open>
  Records held in cached collections: the helpers of the browser tier only look at the
  field \<^verbatim>\<open>id\<close>; everything else of a record is \<open>item_body\<close>.
\<close>

record 'a item =
  item_id :: string
  item_body :: 'a

text \<open>
  The values a cache holds. The source stores anything; the model distinguishes what the
  code can tell apart: \<^verbatim>\<open>null\<close>, a number (falsy when zero), a single record (a truthy
  object that is no array) and an array of records.
\<close>

datatype 'a jsval = JNull | JNum int | JObj 'a | JArr "'a item list"

fun truthy :: "'a jsval \<Rightarrow> bool" where
  "truthy JNull = False"
| "truthy (JNum n) = (n \<noteq> 0)"
| "truthy (JObj _) = True"
| "truthy (JArr _) = True"

text \<open>
  \<^verbatim>\<open>CacheEntry\<close>: \<^verbatim>\<open>{ value, createdAt, expiresAt }\<close>, with \<open>val\<close> for the field \<^verbatim>\<open>value\<close>
  and \<open>None\<close> for \<^verbatim>\<open>null\<close>.
\<close>

record 'a entry =
  val :: "'a jsval"
  createdAt :: int
  expiresAt :: "int option"

text \<open>
  The instance. \<^verbatim>\<open>this.cache\<close> is a JavaScript \<^verbatim>\<open>Map\<close>: keys are unique and iteration
  follows the order of first insertion. It is an association list: \<open>AList.update\<close>
  overwrites in place or appends, as \<^verbatim>\<open>Map.prototype.set\<close> does, \<open>AList.delete\<close> is
  \<^verbatim>\<open>Map.prototype.delete\<close>, \<open>map_of\<close> is \<^verbatim>\<open>Map.prototype.get\<close>. The four counters of
  \<^verbatim>\<open>this._stats\<close> are fields of the same record.
\<close>

record 'a in_memory_cache =
  cache :: "(key \<times> 'a entry) list"
  defaultTTL :: "int option"
  maxSize :: int
  hits :: nat
  misses :: nat
  sets :: nat
  deletes :: nat

text \<open>
  The clock an operation reads: \<open>now\<close> is \<^verbatim>\<open>Date.now()\<close> (milliseconds since the epoch),
  \<open>tzOffset\<close> is the offset of local time from UTC in force at that instant, in
  milliseconds, and \<open>nextTransition\<close> is the next change of that offset, if the time zone has
  one ahead (a daylight-saving switch): the milliseconds from \<open>now\<close> until the change, and
  the offset in force from then on. One operation reads the clock once.
\<close>

record clock =
  now :: int
  tzOffset :: int
  nextTransition :: "(nat \<times> int) option"

record cache_options =
  opt_defaultTTL :: "int option"
  opt_maxSize :: "int option"

text \<open>The constructors: \<^verbatim>\<open>options.maxSize || 1000\<close> on the server, \<^verbatim>\<open>?? 1000\<close> in the browser.\<close>

definition new_js :: "cache_options \<Rightarrow> 'a in_memory_cache" where
  "new_js opts =
     \<lparr>cache = [], defaultTTL = opt_defaultTTL opts,
      maxSize = (case opt_maxSize opts of None \<Rightarrow> 1000 | Some m \<Rightarrow> if m = 0 then 1000 else m),
      hits = 0, misses = 0, sets = 0, deletes = 0\<rparr>"

definition new_ts :: "cache_options \<Rightarrow> 'a in_memory_cache" where
  "new_ts opts =
     \<lparr>cache = [], defaultTTL = opt_defaultTTL opts,
      maxSize = (case opt_maxSize opts of None \<Rightarrow> 1000 | Some m \<Rightarrow> m),
      hits = 0, misses = 0, sets = 0, deletes = 0\<rparr>"

section \<open>Reading: get and has\<close>

text \<open>\<^verbatim>\<open>entry.expiresAt && Date.now() > entry.expiresAt\<close>: \<^verbatim>\<open>null\<close> and \<^verbatim>\<open>0\<close> are falsy.\<close>

definition expired :: "int \<Rightarrow> 'a entry \<Rightarrow> bool" where
  "expired t e = (case expiresAt e of None \<Rightarrow> False | Some x \<Rightarrow> x \<noteq> 0 \<and> t > x)"

text \<open>\<^verbatim>\<open>get\<close> returns \<^verbatim>\<open>null\<close> on a miss; the same code on both tiers.\<close>

definition get :: "key \<Rightarrow> clock \<Rightarrow> 'a in_memory_cache \<Rightarrow> 'a jsval \<times> 'a in_memory_cache" where
  "get k clk s =
     (case map_of (cache s) k of
        None \<Rightarrow> (JNull, s\<lparr>misses := misses s + 1\<rparr>)
      | Some e \<Rightarrow>
          if expired (now clk) e
          then (JNull, s\<lparr>cache := AList.delete k (cache s), misses := misses s + 1\<rparr>)
          else (val e, s\<lparr>hits := hits s + 1\<rparr>))"

definition has :: "key \<Rightarrow> clock \<Rightarrow> 'a in_memory_cache \<Rightarrow> bool \<times> 'a in_memory_cache" where
  "has k clk s =
     (case map_of (cache s) k of
        None \<Rightarrow> (False, s)
      | Some e \<Rightarrow>
          if expired (now clk) e
          then (False, s\<lparr>cache := AList.delete k (cache s)\<rparr>)
          else (True, s))"

section \<open>Writing: set\<close>

text \<open>
  \<^verbatim>\<open>getSecondsUntilMidnight\<close>. \<^verbatim>\<open>midnight.setHours(24, 0, 0, 0)\<close> takes the local reading of
  \<^verbatim>\<open>now\<close>, moves it to the start of the next local day (\<open>localMidnight\<close>) and converts that
  local reading back to an instant (\<open>utcOfLocal\<close>): with the new offset when the local
  reading lies after the change under both offsets, with the offset before the change
  otherwise, which is also how a reading that the change skips or repeats is read.
  \<open>midnight\<close> is \<^verbatim>\<open>midnight.getTime()\<close>, and the result is
  \<^verbatim>\<open>Math.floor((midnight.getTime() - now.getTime()) / 1000)\<close>.
\<close>

definition msPerDay :: int where
  "msPerDay = 86400000"

definition localMidnight :: "clock \<Rightarrow> int" where
  "localMidnight clk =
     (let localNow = now clk + tzOffset clk
      in localNow - localNow mod msPerDay + msPerDay)"

definition utcOfLocal :: "clock \<Rightarrow> int \<Rightarrow> int" where
  "utcOfLocal clk tLocal =
     (case nextTransition clk of
        None \<Rightarrow> tLocal - tzOffset clk
      | Some (delay, newOffset) \<Rightarrow>
          if now clk + int delay + tzOffset clk \<le> tLocal \<and> now clk + int delay + newOffset \<le> tLocal
          then tLocal - newOffset
          else tLocal - tzOffset clk)"

definition midnight :: "clock \<Rightarrow> int" where
  "midnight clk = utcOfLocal clk (localMidnight clk)"

definition getSecondsUntilMidnight :: "clock \<Rightarrow> int" where
  "getSecondsUntilMidnight clk = (midnight clk - now clk) div 1000"




text \<open>
  The \<^verbatim>\<open>if / else if / else\<close> of \<^verbatim>\<open>set\<close> that chooses \<^verbatim>\<open>ttl\<close>. The optional argument is
  \<open>None\<close> when the caller leaves it out (\<^verbatim>\<open>null\<close> by default on the server,
  \<^verbatim>\<open>undefined\<close> in the browser).
\<close>

definition resolveTTL :: "int option \<Rightarrow> int option \<Rightarrow> clock \<Rightarrow> int" where
  "resolveTTL ttlSeconds dflt clk =
     (case ttlSeconds of
        Some t \<Rightarrow> t
      | None \<Rightarrow> (case dflt of None \<Rightarrow> getSecondsUntilMidnight clk | Some d \<Rightarrow> d))"

text \<open>\<^verbatim>\<open>{ value, createdAt: Date.now(), expiresAt: ttl ? Date.now() + (ttl * 1000) : null }\<close>\<close>

definition mkEntry :: "'a jsval \<Rightarrow> int \<Rightarrow> clock \<Rightarrow> 'a entry" where
  "mkEntry v ttl clk =
     \<lparr>val = v, createdAt = now clk,
      expiresAt = (if ttl \<noteq> 0 then Some (now clk + ttl * 1000) else None)\<rparr>"

text \<open>
  The size check at the head of \<^verbatim>\<open>set\<close>. On the server the first key is deleted
  (\<^verbatim>\<open>delete(undefined)\<close> on an empty map does nothing); the browser tier deletes it only
  \<^verbatim>\<open>if (firstKey)\<close>, which the empty string fails.
\<close>

definition enforceMaxSize_js :: "'a in_memory_cache \<Rightarrow> (key \<times> 'a entry) list" where
  "enforceMaxSize_js s =
     (if int (length (cache s)) \<ge> maxSize s
      then (case cache s of [] \<Rightarrow> [] | (firstKey, _) # _ \<Rightarrow> AList.delete firstKey (cache s))
      else cache s)"

definition enforceMaxSize_ts :: "'a in_memory_cache \<Rightarrow> (key \<times> 'a entry) list" where
  "enforceMaxSize_ts s =
     (if int (length (cache s)) \<ge> maxSize s
      then (case cache s of
              [] \<Rightarrow> []
            | (firstKey, _) # _ \<Rightarrow>
                if firstKey \<noteq> [] then AList.delete firstKey (cache s) else cache s)
      else cache s)"

definition set_js ::
  "key \<Rightarrow> 'a jsval \<Rightarrow> int option \<Rightarrow> clock \<Rightarrow> 'a in_memory_cache \<Rightarrow> 'a in_memory_cache" where
  "set_js k v ttlSeconds clk s =
     (let c = enforceMaxSize_js s;
          ttl = resolveTTL ttlSeconds (defaultTTL s) clk
      in s\<lparr>cache := AList.update k (mkEntry v ttl clk) c, sets := sets s + 1\<rparr>)"

definition set_ts ::
  "key \<Rightarrow> 'a jsval \<Rightarrow> int option \<Rightarrow> clock \<Rightarrow> 'a in_memory_cache \<Rightarrow> 'a in_memory_cache" where
  "set_ts k v ttlSeconds clk s =
     (let c = enforceMaxSize_ts s;
          ttl = resolveTTL ttlSeconds (defaultTTL s) clk
      in s\<lparr>cache := AList.update k (mkEntry v ttl clk) c, sets := sets s + 1\<rparr>)"

section \<open>Removing: delete and clear\<close>

definition delete :: "key \<Rightarrow> 'a in_memory_cache \<Rightarrow> bool \<times> 'a in_memory_cache" where
  "delete k s =
     (let existed = (map_of (cache s) k \<noteq> None);
          s' = s\<lparr>cache := AList.delete k (cache s)\<rparr>
      in (existed, if existed then s'\<lparr>deletes := deletes s' + 1\<rparr> else s'))"

definition clear :: "'a in_memory_cache \<Rightarrow> 'a in_memory_cache" where
  "clear s = s\<lparr>cache := [], hits := 0, misses := 0, sets := 0, deletes := 0\<rparr>"

section \<open>Pattern invalidation: deletePattern\<close>

text \<open>
  \<^verbatim>\<open>pattern.replace(/\*/g, '.*').replace(/\?/g, '.')\<close>: every \<^verbatim>\<open>*\<close> becomes \<^verbatim>\<open>.*\<close>, then
  every \<^verbatim>\<open>?\<close> becomes \<^verbatim>\<open>.\<close>; all other characters are copied as they are.
\<close>

definition replaceAll :: "char \<Rightarrow> string \<Rightarrow> string \<Rightarrow> string" where
  "replaceAll c r s = concat (map (\<lambda>x. if x = c then r else [x]) s)"

definition globToRegex :: "string \<Rightarrow> string" where
  "globToRegex pattern = replaceAll (CHR ''?'') ''.'' (replaceAll (CHR ''*'') ''.*'' pattern)"

text \<open>
  \<^verbatim>\<open>new RegExp(`^${regexPattern}$`)\<close>. The regular expressions of the language are
  modelled for the sources this conversion produces from a glob whose other characters
  are no regular-expression syntax, and for a dot in the glob itself: a sequence of
  literal characters, \<^verbatim>\<open>.\<close> (one character that is no line terminator) and \<^verbatim>\<open>.*\<close> (any run
  of such characters). \<open>parseRegex\<close> is \<open>None\<close> on every other source (a glob holding one
  of \<^verbatim>\<open>^ $ \ + ( ) [ ] { } |\<close>): those are outside this model, and some of them make the
  constructor throw.
\<close>

datatype rx = Lit char | AnyChar | AnyStar

definition isSyntaxCharacter :: "char \<Rightarrow> bool" where
  "isSyntaxCharacter c = (c \<in> set ''^$.*+?()[]{}|'' \<or> c = CHR 0x5C)"

fun parseRegex :: "string \<Rightarrow> rx list option" where
  "parseRegex [] = Some []"
| "parseRegex (c # cs) =
     (if c = CHR ''.'' then
        (case cs of
           [] \<Rightarrow> Some [AnyChar]
         | d # rest \<Rightarrow>
             if d = CHR ''*'' then map_option ((#) AnyStar) (parseRegex rest)
             else map_option ((#) AnyChar) (parseRegex cs))
      else if isSyntaxCharacter c then None
      else map_option ((#) (Lit c)) (parseRegex cs))"

text \<open>
  Without the \<^verbatim>\<open>s\<close> flag a dot matches no line terminator. Keys are byte strings here, so
  the line terminators are line feed and carriage return.
\<close>

definition isLineTerminator :: "char \<Rightarrow> bool" where
  "isLineTerminator c = (c = CHR 0x0A \<or> c = CHR 0x0D)"

text \<open>\<^verbatim>\<open>regex.test(key)\<close> for the anchored expression: the whole key has to match.\<close>

fun rxMatch :: "rx list \<Rightarrow> string \<Rightarrow> bool" where
  "rxMatch [] s = (s = [])"
| "rxMatch (Lit c # r) [] = False"
| "rxMatch (Lit c # r) (x # xs) = (x = c \<and> rxMatch r xs)"
| "rxMatch (AnyChar # r) [] = False"
| "rxMatch (AnyChar # r) (x # xs) = (\<not> isLineTerminator x \<and> rxMatch r xs)"
| "rxMatch (AnyStar # r) [] = rxMatch r []"
| "rxMatch (AnyStar # r) (x # xs) =
     (rxMatch r (x # xs) \<or> (\<not> isLineTerminator x \<and> rxMatch (AnyStar # r) xs))"

text \<open>
  The loop \<^verbatim>\<open>for (const key of this.cache.keys())\<close>: a \<^verbatim>\<open>Map\<close> iterator visits every key
  that is there when it is reached, also while visited keys are deleted, so the loop
  runs over the keys the map had at the start.
\<close>

fun deleteMatching ::
  "rx list \<Rightarrow> key list \<Rightarrow> (key \<times> 'a entry) list \<Rightarrow> nat \<Rightarrow> (key \<times> 'a entry) list \<times> nat" where
  "deleteMatching r [] c deletedCount = (c, deletedCount)"
| "deleteMatching r (k # ks) c deletedCount =
     (if rxMatch r k then deleteMatching r ks (AList.delete k c) (deletedCount + 1)
      else deleteMatching r ks c deletedCount)"

definition deletePattern ::
  "string \<Rightarrow> 'a in_memory_cache \<Rightarrow> (nat \<times> 'a in_memory_cache) option" where
  "deletePattern pattern s =
     (case parseRegex (globToRegex pattern) of
        None \<Rightarrow> None
      | Some regex \<Rightarrow>
          (case deleteMatching regex (map fst (cache s)) (cache s) 0 of
             (c, deletedCount) \<Rightarrow>
               Some (deletedCount, s\<lparr>cache := c, deletes := deletes s + deletedCount\<rparr>)))"

text \<open>
  For comparison, the glob as the specification words it, not taken from the code: \<^verbatim>\<open>*\<close>
  matches any run of characters, \<^verbatim>\<open>?\<close> exactly one character, every other character
  itself. \<open>plainGlob\<close> holds of the globs whose characters other than \<^verbatim>\<open>*\<close> and \<^verbatim>\<open>?\<close> are
  no regular-expression syntax, and \<open>globTokens\<close> is the expression such a glob stands for.
\<close>

fun globMatch_spec :: "string \<Rightarrow> string \<Rightarrow> bool" where
  "globMatch_spec [] s = (s = [])"
| "globMatch_spec (p # ps) [] = (p = CHR ''*'' \<and> globMatch_spec ps [])"
| "globMatch_spec (p # ps) (x # xs) =
     (if p = CHR ''*'' then globMatch_spec ps (x # xs) \<or> globMatch_spec (p # ps) xs
      else if p = CHR ''?'' then globMatch_spec ps xs
      else p = x \<and> globMatch_spec ps xs)"

definition plainGlob :: "string \<Rightarrow> bool" where
  "plainGlob p = list_all (\<lambda>c. c = CHR ''*'' \<or> c = CHR ''?'' \<or> \<not> isSyntaxCharacter c) p"

definition globTokens :: "string \<Rightarrow> rx list" where
  "globTokens p =
     map (\<lambda>c. if c = CHR ''*'' then AnyStar else if c = CHR ''?'' then AnyChar else Lit c) p"

section \<open>The background sweep\<close>

text \<open>
  \<^verbatim>\<open>_cleanup\<close> of the server tier, run by the timer every minute; the browser tier has no
  sweep. The loop over \<^verbatim>\<open>this.cache.entries()\<close> is again a loop over the entries at its
  start.
\<close>

fun cleanupLoop :: "int \<Rightarrow> (key \<times> 'a entry) list \<Rightarrow> (key \<times> 'a entry) list \<Rightarrow> (key \<times> 'a entry) list" where
  "cleanupLoop t [] c = c"
| "cleanupLoop t ((k, e) # rest) c =
     cleanupLoop t rest (if expired t e then AList.delete k c else c)"

definition cleanup :: "clock \<Rightarrow> 'a in_memory_cache \<Rightarrow> 'a in_memory_cache" where
  "cleanup clk s = s\<lparr>cache := cleanupLoop (now clk) (cache s) (cache s)\<rparr>"

section \<open>Statistics\<close>


text \<open>Decimal digits of a natural number, as string conversion prints them.\<close>

definition digitChar :: "nat \<Rightarrow> char" where
  "digitChar d = ''0123456789'' ! d"

fun showNat :: "nat \<Rightarrow> string" where
  "showNat n = (if n < 10 then [digitChar n] else showNat (n div 10) @ [digitChar (n mod 10)])"

declare showNat.simps [simp del]

text \<open>Reading a decimal numeral back, to state what \<open>showNat\<close> prints.\<close>

definition readNat :: "string \<Rightarrow> nat" where
  "readNat s = foldl (\<lambda>a c. 10 * a + (of_char c - 48)) 0 s"

text \<open>
  The numbers of \<^verbatim>\<open>hits / total * 100\<close> are IEEE doubles. A finite double that is not
  negative is a mantissa and a binary exponent, \<open>Dbl m e\<close> for \<open>m * 2 ^ e\<close>. The counters
  are integers below \<open>2 ^ 53\<close> and are doubles as they are. The range of the exponent is
  not bounded here: quotients so small or large that a double has no normal form for them
  are outside the model.
\<close>

datatype double = Dbl nat int


text \<open>
  Rounding to nearest, ties to even, of the quotient \<open>a / b\<close> to an integer; and the
  double nearest to the quotient of two positive integers: the quotient is scaled by the
  power of two that brings it into \<open>[2 ^ 52, 2 ^ 53)\<close>, the size of a mantissa of 53 bits,
  and rounded there. This is what a division or a multiplication returns when \<open>a / b\<close> is
  its exact result.
\<close>

definition roundNearestEven :: "nat \<Rightarrow> nat \<Rightarrow> nat" where
  "roundNearestEven a b =
     (let q = a div b; r = a mod b
      in if 2 * r < b then q else if b < 2 * r then q + 1 else if even q then q else q + 1)"

definition scaled :: "nat \<Rightarrow> nat \<Rightarrow> int \<Rightarrow> nat \<times> nat" where
  "scaled a b s = (if 0 \<le> s then (a * 2 ^ nat s, b) else (a, b * 2 ^ nat (- s)))"

definition flQuot :: "nat \<Rightarrow> nat \<Rightarrow> double" where
  "flQuot a b =
     (if a = 0 then Dbl 0 0
      else let s0 = 52 + int (floorlog 2 b) - int (floorlog 2 a);
               s = (if 2 ^ 52 * snd (scaled a b s0) \<le> fst (scaled a b s0) then s0 else s0 + 1)
           in Dbl (roundNearestEven (fst (scaled a b s)) (snd (scaled a b s))) (- s))"






section \<open>Collection helpers of the browser tier\<close>

datatype js_error = TypeError | UnknownCacheType string

text \<open>
  Each helper reads with \<^verbatim>\<open>get\<close>, returns when the result is falsy, and otherwise sets the
  key to a new array without a TTL argument. On a truthy value that is no array the
  array operation throws a \<^verbatim>\<open>TypeError\<close> after the read. The result is the error, if
  one was thrown, and the state the call leaves.
\<close>

definition addToArray ::
  "key \<Rightarrow> 'a item \<Rightarrow> clock \<Rightarrow> 'a in_memory_cache \<Rightarrow> js_error option \<times> 'a in_memory_cache" where
  "addToArray arrayKey itm clk s =
     (case get arrayKey clk s of
        (cached, s1) \<Rightarrow>
          if \<not> truthy cached then (None, s1)
          else (case cached of
                  JArr xs \<Rightarrow> (None, set_ts arrayKey (JArr (xs @ [itm])) None clk s1)
                | _ \<Rightarrow> (Some TypeError, s1)))"

definition updateInArray ::
  "key \<Rightarrow> 'a item \<Rightarrow> clock \<Rightarrow> 'a in_memory_cache \<Rightarrow> js_error option \<times> 'a in_memory_cache" where
  "updateInArray arrayKey itm clk s =
     (case get arrayKey clk s of
        (cached, s1) \<Rightarrow>
          if \<not> truthy cached then (None, s1)
          else (case cached of
                  JArr xs \<Rightarrow>
                    (None, set_ts arrayKey
                       (JArr (map (\<lambda>i. if item_id i = item_id itm then itm else i) xs)) None clk s1)
                | _ \<Rightarrow> (Some TypeError, s1)))"

definition removeFromArray ::
  "key \<Rightarrow> string \<Rightarrow> clock \<Rightarrow> 'a in_memory_cache \<Rightarrow> js_error option \<times> 'a in_memory_cache" where
  "removeFromArray arrayKey ident clk s =
     (case get arrayKey clk s of
        (cached, s1) \<Rightarrow>
          if \<not> truthy cached then (None, s1)
          else (case cached of
                  JArr xs \<Rightarrow>
                    (None, set_ts arrayKey (JArr (filter (\<lambda>i. item_id i \<noteq> ident) xs)) None clk s1)
                | _ \<Rightarrow> (Some TypeError, s1)))"

section \<open>The factory\<close>

text \<open>
  \<^verbatim>\<open>CacheFactory.cacheTypes\<close> is an object literal used as a dictionary from type names to
  classes. Its own properties are an association list. A read \<^verbatim>\<open>this.cacheTypes[type]\<close>
  that finds no own property goes on to the object's prototype, \<^verbatim>\<open>Object.prototype\<close>,
  whose properties are listed in \<open>objectPrototype\<close>: \<^verbatim>\<open>constructor\<close> is the function
  \<^verbatim>\<open>Object\<close>, the others are methods that are no constructors, and \<^verbatim>\<open>__proto__\<close> reads
  as the prototype object itself. All of them are truthy.
\<close>

datatype cache_class = InMemoryCache | RedisCache | CustomCache string

datatype registry_value = Class cache_class | ObjectConstructor | NotAConstructor

type_synonym cacheTypes = "(string \<times> cache_class) list"

definition cacheTypes0 :: cacheTypes where
  "cacheTypes0 = [(''memory'', InMemoryCache), (''redis'', RedisCache)]"

definition objectPrototype :: "(string \<times> registry_value) list" where
  "objectPrototype =
     [(''constructor'', ObjectConstructor),
      (''__proto__'', NotAConstructor),
      (''hasOwnProperty'', NotAConstructor),
      (''isPrototypeOf'', NotAConstructor),
      (''propertyIsEnumerable'', NotAConstructor),
      (''toLocaleString'', NotAConstructor),
      (''toString'', NotAConstructor),
      (''valueOf'', NotAConstructor),
      (''__defineGetter__'', NotAConstructor),
      (''__defineSetter__'', NotAConstructor),
      (''__lookupGetter__'', NotAConstructor),
      (''__lookupSetter__'', NotAConstructor)]"

definition lookupType :: "cacheTypes \<Rightarrow> string \<Rightarrow> registry_value option" where
  "lookupType reg t =
     (case map_of reg t of Some c \<Rightarrow> Some (Class c) | None \<Rightarrow> map_of objectPrototype t)"

text \<open>
  What \<^verbatim>\<open>create\<close> can return: an instance of a class of the registry, built from the
  options, or, from \<^verbatim>\<open>new Object(options)\<close>, the options object itself. The constructor
  of a custom class is taken to return.
\<close>

datatype 'a cache_instance =
    InMemoryInstance "'a in_memory_cache"
  | RedisInstance cache_options
  | CustomInstance string cache_options
  | OptionsObject cache_options

fun construct :: "cache_class \<Rightarrow> cache_options \<Rightarrow> 'a cache_instance" where
  "construct InMemoryCache options = InMemoryInstance (new_js options)"
| "construct RedisCache options = RedisInstance options"
| "construct (CustomCache n) options = CustomInstance n options"

fun instanceOf :: "'a cache_instance \<Rightarrow> cache_class \<Rightarrow> bool" where
  "instanceOf (InMemoryInstance _) c = (c = InMemoryCache)"
| "instanceOf (RedisInstance _) c = (c = RedisCache)"
| "instanceOf (CustomInstance n _) c = (c = CustomCache n)"
| "instanceOf (OptionsObject _) c = False"

record cache_config =
  cfg_type :: "string option"
  cfg_options :: "cache_options option"

text \<open>
  \<^verbatim>\<open>config.type || 'memory'\<close> and \<^verbatim>\<open>config.options || {}\<close>: a missing or empty type is
  \<^verbatim>\<open>'memory'\<close>. A falsy lookup throws the \<^verbatim>\<open>Error\<close>; \<^verbatim>\<open>new\<close> of a value that is no
  constructor throws a \<^verbatim>\<open>TypeError\<close>.
\<close>

definition create :: "cacheTypes \<Rightarrow> cache_config \<Rightarrow> js_error + 'a cache_instance" where
  "create reg config =
     (let tname = (case cfg_type config of None \<Rightarrow> ''memory''
                   | Some t \<Rightarrow> if t = [] then ''memory'' else t);
          options = (case cfg_options config of
                       None \<Rightarrow> \<lparr>opt_defaultTTL = None, opt_maxSize = None\<rparr>
                     | Some opts \<Rightarrow> opts)
      in case lookupType reg tname of
           None \<Rightarrow> Inl (UnknownCacheType tname)
         | Some (Class c) \<Rightarrow> Inr (construct c options)
         | Some ObjectConstructor \<Rightarrow> Inr (OptionsObject options)
         | Some NotAConstructor \<Rightarrow> Inl TypeError)"

text \<open>
  \<^verbatim>\<open>this.cacheTypes[name] = CacheClass\<close>. An assignment to \<^verbatim>\<open>__proto__\<close> replaces the
  prototype of the object instead of adding a property; the model does not follow it
  (\<open>None\<close>).
\<close>

definition register :: "string \<Rightarrow> cache_class \<Rightarrow> cacheTypes \<Rightarrow> cacheTypes option" where
  "register name c reg =
     (if name = ''__proto__'' then None else Some (AList.update name c reg))"

section \<open>Example states\<close>

text \<open>States and clocks at which the statements below are evaluated.\<close>

definition clockAt :: "int \<Rightarrow> clock" where
  "clockAt t = \<lparr>now = t, tzOffset = 0, nextTransition = None\<rparr>"

definition expiredStore :: "unit in_memory_cache" where
  "expiredStore =
     \<lparr>cache = [(''books:all'', \<lparr>val = JNum 7, createdAt = 0, expiresAt = Some 1000\<rparr>)],
      defaultTTL = None, maxSize = 1000, hits = 0, misses = 0, sets = 1, deletes = 0\<rparr>"

definition fullStore :: "unit in_memory_cache" where
  "fullStore =
     \<lparr>cache = [(''k1'', \<lparr>val = JNum 1, createdAt = 0, expiresAt = None\<rparr>),
               (''k2'', \<lparr>val = JNum 2, createdAt = 0, expiresAt = None\<rparr>)],
      defaultTTL = None, maxSize = 2, hits = 0, misses = 0, sets = 2, deletes = 0\<rparr>"

definition booksStore :: "unit in_memory_cache" where
  "booksStore =
     \<lparr>cache = [(''books:all'', \<lparr>val = JArr [], createdAt = 0, expiresAt = None\<rparr>),
               (''books:5'', \<lparr>val = JObj (), createdAt = 0, expiresAt = None\<rparr>),
               (''users:all'', \<lparr>val = JArr [], createdAt = 0, expiresAt = None\<rparr>)],
      defaultTTL = None, maxSize = 1000, hits = 0, misses = 0, sets = 3, deletes = 0\<rparr>"

definition dotStore :: "unit in_memory_cache" where
  "dotStore =
     \<lparr>cache = [(''v1.0'', \<lparr>val = JNum 1, createdAt = 0, expiresAt = None\<rparr>),
               (''v1x0'', \<lparr>val = JNum 2, createdAt = 0, expiresAt = None\<rparr>),
               (''books:'' @ [CHR 0x0A], \<lparr>val = JNum 3, createdAt = 0, expiresAt = None\<rparr>)],
      defaultTTL = None, maxSize = 1000, hits = 0, misses = 0, sets = 3, deletes = 0\<rparr>"

definition dupStore :: "unit in_memory_cache" where
  "dupStore =
     \<lparr>cache = [(''books:all'',
                \<lparr>val = JArr [\<lparr>item_id = ''7'', item_body = ()\<rparr>,
                             \<lparr>item_id = ''7'', item_body = ()\<rparr>,
                             \<lparr>item_id = ''8'', item_body = ()\<rparr>],
                 createdAt = 0, expiresAt = None\<rparr>)],
      defaultTTL = Some 300, maxSize = 1000, hits = 0, misses = 0, sets = 1, deletes = 0\<rparr>"

definition listStore :: "unit in_memory_cache" where
  "listStore =
     \<lparr>cache = [(''books:all'',
                \<lparr>val = JArr [\<lparr>item_id = ''7'', item_body = ()\<rparr>,
                             \<lparr>item_id = ''8'', item_body = ()\<rparr>,
                             \<lparr>item_id = ''9'', item_body = ()\<rparr>],
                 createdAt = 0, expiresAt = None\<rparr>)],
      defaultTTL = Some 300, maxSize = 1000, hits = 0, misses = 0, sets = 1, deletes = 0\<rparr>"


definition emptyKeyStore :: "unit in_memory_cache" where
  "emptyKeyStore =
     \<lparr>cache = [([], \<lparr>val = JNum 1, createdAt = 0, expiresAt = None\<rparr>),
               (''k2'', \<lparr>val = JNum 2, createdAt = 0, expiresAt = None\<rparr>)],
      defaultTTL = None, maxSize = 2, hits = 0, misses = 0, sets = 2, deletes = 0\<rparr>"




definition clockLastSecond :: clock where
  "clockLastSecond = \<lparr>now = 86399500, tzOffset = 0, nextTransition = None\<rparr>"



definition clockNewYorkHalfPast :: clock where
  "clockNewYorkHalfPast =
     \<lparr>now = 1710048600000, tzOffset = - 18000000, nextTransition = Some (5400000, - 14400000)\<rparr>"

definition nullTTLStore :: "unit in_memory_cache" where
  "nullTTLStore =
     \<lparr>cache = [], defaultTTL = None, maxSize = 1000, hits = 0, misses = 0, sets = 0,
      deletes = 0\<rparr>"

section \<open>Facts about set, the clock and the loops\<close>

lemma map_of_set_js:
  "map_of (cache (set_js k v t clk s)) k = Some (mkEntry v (resolveTTL t (defaultTTL s) clk) clk)"
  by (simp add: set_js_def Let_def update_conv')

lemma map_of_set_ts:
  "map_of (cache (set_ts k v t clk s)) k = Some (mkEntry v (resolveTTL t (defaultTTL s) clk) clk)"
  by (simp add: set_ts_def Let_def update_conv')

lemma not_expired_null: "expiresAt e = None \<Longrightarrow> \<not> expired t e"
  by (simp add: expired_def)

text \<open>
  The local reading \<open>localMidnight\<close> is a midnight, the first one after the local reading of
  \<open>now\<close>; the instant \<open>midnight\<close> does not lie before \<open>now\<close>; the result of \<open>getSecondsUntilMidnight\<close>
  is the number of whole seconds from \<open>now\<close> to \<open>midnight\<close>, rounded down, and is not
  negative.
\<close>

lemma localMidnight_facts:
  "localMidnight clk mod msPerDay = 0
   \<and> now clk + tzOffset clk < localMidnight clk
   \<and> localMidnight clk \<le> now clk + tzOffset clk + msPerDay"
proof -
  define l where "l = now clk + tzOffset clk"
  have r: "0 \<le> l mod msPerDay" "l mod msPerDay < msPerDay"
    by (simp_all add: msPerDay_def)
  have "(l - l mod msPerDay + msPerDay) mod msPerDay = (l - l mod msPerDay) mod msPerDay"
    by simp
  also have "\<dots> = 0"
    by (simp add: minus_mod_eq_mult_div)
  finally have "(l - l mod msPerDay + msPerDay) mod msPerDay = 0" .
  moreover have "localMidnight clk = l - l mod msPerDay + msPerDay"
    by (simp add: localMidnight_def l_def Let_def)
  ultimately show ?thesis
    using r unfolding l_def by simp
qed

lemma midnight_after_now: "now clk \<le> midnight clk"
proof (cases "nextTransition clk")
  case None
  then show ?thesis
    using localMidnight_facts [of clk] by (simp add: midnight_def utcOfLocal_def)
next
  case (Some tr)
  obtain delay newOffset where tr: "tr = (delay, newOffset)" by (cases tr)
  show ?thesis
    using localMidnight_facts [of clk] Some tr
    by (auto simp: midnight_def utcOfLocal_def)
qed


lemma getSecondsUntilMidnight_nonneg: "0 \<le> getSecondsUntilMidnight clk"
  using midnight_after_now [of clk] by (simp add: getSecondsUntilMidnight_def)



text \<open>
  In the last second before local midnight no whole second is left: the TTL is 0, which
  \<^verbatim>\<open>ttl ? ... : null\<close> reads as no expiry, and the entry set then never expires.
\<close>

lemma set_in_last_second_never_expires:
  "getSecondsUntilMidnight clockLastSecond = 0
 \<and> map_of (cache (set_js ''books:all'' (JNum 1) None clockLastSecond nullTTLStore)) ''books:all''
     = Some \<lparr>val = JNum 1, createdAt = 86399500, expiresAt = None\<rparr>
 \<and> map_of (cache (set_ts ''books:all'' (JNum 1) None clockLastSecond nullTTLStore)) ''books:all''
     = Some \<lparr>val = JNum 1, createdAt = 86399500, expiresAt = None\<rparr>
 \<and> fst (get ''books:all'' clk (set_js ''books:all'' (JNum 1) None clockLastSecond nullTTLStore))
     = JNum 1"
proof -
  have z: "getSecondsUntilMidnight clockLastSecond = 0"
    by (simp add: getSecondsUntilMidnight_def midnight_def utcOfLocal_def localMidnight_def
        clockLastSecond_def msPerDay_def)
  have e: "mkEntry (JNum 1) (resolveTTL None (defaultTTL nullTTLStore) clockLastSecond) clockLastSecond
             = \<lparr>val = JNum 1, createdAt = 86399500, expiresAt = None\<rparr>"
    by (simp add: mkEntry_def resolveTTL_def z nullTTLStore_def) (simp add: clockLastSecond_def)
  show ?thesis
    using map_of_set_js [of "''books:all''" "JNum 1" None clockLastSecond nullTTLStore]
      map_of_set_ts [of "''books:all''" "JNum 1" None clockLastSecond nullTTLStore]
    by (simp add: e z get_def expired_def)
qed

text \<open>
  On the day of the switch to daylight time the local day has 23 hours: at local 00:30:00
  there are 81000 seconds to the next local midnight, not 84600.
\<close>

lemma getSecondsUntilMidnight_spring_forward:
  "(now clockNewYorkHalfPast + tzOffset clockNewYorkHalfPast) mod msPerDay = 30 * 60 * 1000
 \<and> getSecondsUntilMidnight clockNewYorkHalfPast = 81000"
  by (simp add: getSecondsUntilMidnight_def midnight_def utcOfLocal_def localMidnight_def
      clockNewYorkHalfPast_def msPerDay_def)

text \<open>The loop of \<open>deletePattern\<close> removes the entries whose key matches and counts them.\<close>

lemma deleteMatching_filter:
  "deleteMatching r ks c n =
     (filter (\<lambda>p. \<not> (fst p \<in> set ks \<and> rxMatch r (fst p))) c, n + length (filter (rxMatch r) ks))"
proof (induction ks arbitrary: c n)
  case Nil
  then show ?case by simp
next
  case (Cons k ks)
  have "filter (\<lambda>p. \<not> (fst p \<in> set ks \<and> rxMatch r (fst p))) (AList.delete k c)
          = filter (\<lambda>p. \<not> ((fst p = k \<or> fst p \<in> set ks) \<and> rxMatch r (fst p))) c"
    if "rxMatch r k"
    using that by (auto simp: AList.delete_eq intro: filter_cong)
  moreover have "filter (\<lambda>p. \<not> (fst p \<in> set ks \<and> rxMatch r (fst p))) c
          = filter (\<lambda>p. \<not> ((fst p = k \<or> fst p \<in> set ks) \<and> rxMatch r (fst p))) c"
    if "\<not> rxMatch r k"
    using that by (auto intro: filter_cong)
  ultimately show ?case
    by (simp add: Cons.IH)
qed

lemma deleteMatching_all:
  "deleteMatching r (map fst c) c 0 =
     (filter (\<lambda>p. \<not> rxMatch r (fst p)) c, length (filter (\<lambda>p. rxMatch r (fst p)) c))"
proof -
  have "filter (\<lambda>p. \<not> (fst p \<in> set (map fst c) \<and> rxMatch r (fst p))) c
          = filter (\<lambda>p. \<not> rxMatch r (fst p)) c"
    by (auto intro: filter_cong)
  moreover have "length (filter (rxMatch r) (map fst c)) = length (filter (\<lambda>p. rxMatch r (fst p)) c)"
    by (simp add: filter_map comp_def)
  ultimately show ?thesis
    by (simp add: deleteMatching_filter)
qed

lemma deletePattern_result:
  assumes "parseRegex (globToRegex pattern) = Some regex"
  shows "deletePattern pattern s =
           Some (length (filter (\<lambda>p. rxMatch regex (fst p)) (cache s)),
                 s\<lparr>cache := filter (\<lambda>p. \<not> rxMatch regex (fst p)) (cache s),
                   deletes := deletes s + length (filter (\<lambda>p. rxMatch regex (fst p)) (cache s))\<rparr>)"
  using assms by (simp add: deletePattern_def deleteMatching_all)

lemma length_filter_split:
  "length (filter P xs) + length (filter (\<lambda>x. \<not> P x) xs) = length xs"
  by (induction xs) auto

text \<open>
  The example of the key catalogue: with the keys \<^verbatim>\<open>books:all\<close>, \<^verbatim>\<open>books:5\<close> and
  \<^verbatim>\<open>users:all\<close>, \<^verbatim>\<open>deletePattern("books:*")\<close> returns 2 and leaves \<^verbatim>\<open>users:all\<close>.
\<close>

lemma parseRegex_books:
  "parseRegex (globToRegex ''books:*'')
     = Some [Lit CHR ''b'', Lit CHR ''o'', Lit CHR ''o'', Lit CHR ''k'', Lit CHR ''s'',
             Lit CHR '':'', AnyStar]"
  by (simp add: globToRegex_def replaceAll_def isSyntaxCharacter_def)

lemma deletePattern_books_example:
  "deletePattern ''books:*'' booksStore
     = Some (2, booksStore\<lparr>cache := [(''users:all'', \<lparr>val = JArr [], createdAt = 0, expiresAt = None\<rparr>)],
                          deletes := 2\<rparr>)"
  by (simp add: deletePattern_def parseRegex_books booksStore_def isLineTerminator_def)

text \<open>The order of the store: what \<^verbatim>\<open>set\<close> does to it at and below capacity.\<close>

lemma update_absent_appends:
  "k \<notin> fst ` set al \<Longrightarrow> AList.update k v al = al @ [(k, v)]"
  by (induction al) auto

lemma set_new_key_at_capacity_js:
  assumes "cache s = (k0, e0) # rest" and "maxSize s \<le> int (length (cache s))"
    and "distinct (map fst (cache s))" and "k \<notin> fst ` set (cache s)"
  shows "cache (set_js k v t clk s) = rest @ [(k, mkEntry v (resolveTTL t (defaultTTL s) clk) clk)]"
proof -
  from assms(1,3) have "k0 \<notin> fst ` set rest" by auto
  then have "AList.delete k0 (cache s) = rest"
    using assms(1) by simp
  then have "enforceMaxSize_js s = rest"
    using assms(1,2) by (simp add: enforceMaxSize_js_def)
  moreover from assms(1,4) have "k \<notin> fst ` set rest" by auto
  ultimately show ?thesis
    by (simp add: set_js_def Let_def update_absent_appends)
qed

lemma set_below_capacity_js:
  assumes "int (length (cache s)) < maxSize s"
  shows "cache (set_js k v t clk s)
           = AList.update k (mkEntry v (resolveTTL t (defaultTTL s) clk) clk) (cache s)"
  using assms by (simp add: set_js_def enforceMaxSize_js_def Let_def)

lemma get_keeps_order:
  "map fst (cache (snd (get k clk s))) = map fst (cache s)
   \<or> map fst (cache (snd (get k clk s))) = removeAll k (map fst (cache s))"
  by (simp add: get_def delete_keys split: option.splits)

lemma eviction_example_js:
  "map fst (cache
     (set_js ''k3'' (JNum 3) None (clockAt 4)
       (snd (get ''k1'' (clockAt 3)
         (set_js ''k2'' (JNum 2) None (clockAt 2)
           (set_js ''k1'' (JNum 1) None (clockAt 1)
             (new_js \<lparr>opt_defaultTTL = None, opt_maxSize = Some 2\<rparr> :: unit in_memory_cache)))))))
   = [''k2'', ''k3'']"
  by (simp add: new_js_def set_js_def enforceMaxSize_js_def get_def expired_def mkEntry_def
        resolveTTL_def getSecondsUntilMidnight_def midnight_def utcOfLocal_def localMidnight_def
        msPerDay_def clockAt_def Let_def)

lemma eviction_example_ts:
  "map fst (cache
     (set_ts ''k3'' (JNum 3) None (clockAt 4)
       (snd (get ''k1'' (clockAt 3)
         (set_ts ''k2'' (JNum 2) None (clockAt 2)
           (set_ts ''k1'' (JNum 1) None (clockAt 1)
             (new_ts \<lparr>opt_defaultTTL = None, opt_maxSize = Some 2\<rparr> :: unit in_memory_cache)))))))
   = [''k2'', ''k3'']"
  by (simp add: new_ts_def set_ts_def enforceMaxSize_ts_def get_def expired_def mkEntry_def
        resolveTTL_def getSecondsUntilMidnight_def midnight_def utcOfLocal_def localMidnight_def
        msPerDay_def clockAt_def Let_def)

text \<open>
  In the browser tier the oldest key is not evicted when it is the empty string, which
  \<^verbatim>\<open>if (firstKey)\<close> takes for a missing key; the server tier evicts it.
\<close>

lemma set_ts_keeps_empty_first_key:
  "map fst (cache (set_ts ''k3'' (JNum 3) None (clockAt 0) emptyKeyStore)) = [[], ''k2'', ''k3'']
 \<and> map fst (cache (set_js ''k3'' (JNum 3) None (clockAt 0) emptyKeyStore)) = [''k2'', ''k3'']"
  by (simp add: emptyKeyStore_def set_js_def set_ts_def enforceMaxSize_js_def enforceMaxSize_ts_def
        Let_def)

text \<open>The sweep removes the expired entries, and every operation keeps the keys unique.\<close>

lemma cleanupLoop_filter:
  "cleanupLoop t es c = filter (\<lambda>p. \<not> (\<exists>e. (fst p, e) \<in> set es \<and> expired t e)) c"
proof (induction es arbitrary: c)
  case Nil
  then show ?case by simp
next
  case (Cons a es)
  obtain k e where a: "a = (k, e)" by (cases a)
  show ?case
  proof (cases "expired t e")
    case True
    have "filter (\<lambda>p. \<not> (\<exists>e'. (fst p, e') \<in> set es \<and> expired t e')) (AList.delete k c)
            = filter (\<lambda>p. \<not> (\<exists>e'. (fst p, e') \<in> set (a # es) \<and> expired t e')) c"
      using True a by (auto simp: AList.delete_eq split_def intro!: filter_cong)
    with True a Cons.IH show ?thesis by simp
  next
    case False
    have "filter (\<lambda>p. \<not> (\<exists>e'. (fst p, e') \<in> set es \<and> expired t e')) c
            = filter (\<lambda>p. \<not> (\<exists>e'. (fst p, e') \<in> set (a # es) \<and> expired t e')) c"
      using False a by (auto intro!: filter_cong)
    with False a Cons.IH show ?thesis by simp
  qed
qed

lemma cleanup_removes_expired:
  assumes "distinct (map fst (cache s))"
  shows "cache (cleanup clk s) = filter (\<lambda>p. \<not> expired (now clk) (snd p)) (cache s)"
proof -
  have "(\<exists>e. (fst p, e) \<in> set (cache s) \<and> expired (now clk) e) = expired (now clk) (snd p)"
    if "p \<in> set (cache s)" for p
  proof -
    have "e = snd p" if "(fst p, e) \<in> set (cache s)" for e
      using assms that \<open>p \<in> set (cache s)\<close>
      by (metis eq_key_imp_eq_value prod.collapse)
    then show ?thesis
      using \<open>p \<in> set (cache s)\<close> by (metis prod.collapse)
  qed
  then show ?thesis
    by (auto simp: cleanup_def cleanupLoop_filter intro!: filter_cong)
qed

lemma keys_stay_distinct:
  assumes "distinct (map fst (cache s))"
  shows "distinct (map fst (cache (set_js k v t clk s)))"
    and "distinct (map fst (cache (set_ts k v t clk s)))"
    and "distinct (map fst (cache (snd (get k clk s))))"
    and "distinct (map fst (cache (snd (has k clk s))))"
    and "distinct (map fst (cache (snd (delete k s))))"
    and "distinct (map fst (cache (cleanup clk s)))"
    and "distinct (map fst (cache (clear s)))"
    and "deletePattern p s = Some (n, s') \<Longrightarrow> distinct (map fst (cache s'))"
proof -
  have e1: "distinct (map fst (enforceMaxSize_js s))"
    using assms by (auto simp: enforceMaxSize_js_def distinct_delete split: list.splits)
  have e2: "distinct (map fst (enforceMaxSize_ts s))"
    using assms by (auto simp: enforceMaxSize_ts_def distinct_delete split: list.splits)
  show "distinct (map fst (cache (set_js k v t clk s)))"
    using e1 by (simp add: set_js_def Let_def distinct_update)
  show "distinct (map fst (cache (set_ts k v t clk s)))"
    using e2 by (simp add: set_ts_def Let_def distinct_update)
  show "distinct (map fst (cache (snd (get k clk s))))"
    using assms by (simp add: get_def distinct_delete split: option.splits)
  show "distinct (map fst (cache (snd (has k clk s))))"
    using assms by (simp add: has_def distinct_delete split: option.splits)
  show "distinct (map fst (cache (snd (delete k s))))"
    using assms by (simp add: delete_def Let_def distinct_delete)
  show "distinct (map fst (cache (cleanup clk s)))"
    using assms by (simp add: cleanup_def cleanupLoop_filter distinct_map_filter)
  show "distinct (map fst (cache (clear s)))"
    by (simp add: clear_def)
  show "distinct (map fst (cache s'))" if "deletePattern p s = Some (n, s')"
  proof -
    from that obtain regex where r: "parseRegex (globToRegex p) = Some regex"
      by (auto simp: deletePattern_def split: option.splits)
    from that deletePattern_result [OF r, of s]
    have "cache s' = filter (\<lambda>p. \<not> rxMatch regex (fst p)) (cache s)" by auto
    with assms show ?thesis by (simp add: distinct_map_filter)
  qed
qed

text \<open>
  On plain globs and keys without line terminators \<open>deletePattern\<close> is the glob of the
  specification: it removes the keys that match and returns their number.
\<close>

lemma globToRegex_Cons:
  "globToRegex (c # p) =
     (if c = CHR ''*'' then ''.*'' else if c = CHR ''?'' then ''.'' else [c]) @ globToRegex p"
  by (simp add: globToRegex_def replaceAll_def)

lemma globToRegex_Nil: "globToRegex [] = []"
  by (simp add: globToRegex_def replaceAll_def)

lemma globToRegex_no_leading_star:
  "plainGlob p \<Longrightarrow> globToRegex p = d # rest \<Longrightarrow> d \<noteq> CHR ''*''"
  by (cases p) (auto simp: plainGlob_def globToRegex_Cons globToRegex_Nil isSyntaxCharacter_def
      split: if_splits)

lemma parseRegex_plainGlob:
  "plainGlob p \<Longrightarrow> parseRegex (globToRegex p) = Some (globTokens p)"
proof (induction p)
  case Nil
  then show ?case by (simp add: globToRegex_Nil globTokens_def)
next
  case (Cons c p)
  then have p: "plainGlob p" and ih: "parseRegex (globToRegex p) = Some (globTokens p)"
    by (simp_all add: plainGlob_def)
  consider (star) "c = CHR ''*''" | (quest) "c = CHR ''?''"
    | (lit) "c \<noteq> CHR ''*''" "c \<noteq> CHR ''?''" "\<not> isSyntaxCharacter c"
    using Cons.prems by (auto simp: plainGlob_def)
  then show ?case
  proof cases
    case star
    then show ?thesis by (simp add: globToRegex_Cons ih globTokens_def)
  next
    case quest
    show ?thesis
    proof (cases "globToRegex p")
      case Nil
      with ih have "globTokens p = []" by simp
      with quest Nil show ?thesis by (simp add: globToRegex_Cons globTokens_def)
    next
      case (Cons d rest)
      with globToRegex_no_leading_star [OF p] have "d \<noteq> CHR ''*''" by simp
      with quest Cons ih show ?thesis by (simp add: globToRegex_Cons globTokens_def)
    qed
  next
    case lit
    then have "c \<noteq> CHR ''.''" by (auto simp: isSyntaxCharacter_def)
    with lit show ?thesis by (simp add: globToRegex_Cons ih globTokens_def)
  qed
qed

lemma rxMatch_globTokens:
  "list_all (\<lambda>c. \<not> isLineTerminator c) k \<Longrightarrow> rxMatch (globTokens p) k = globMatch_spec p k"
proof (induction p k rule: globMatch_spec.induct)
  case (1 s)
  then show ?case by (simp add: globTokens_def)
next
  case (2 p ps)
  then show ?case by (auto simp: globTokens_def)
next
  case (3 p ps x xs)
  then show ?case by (auto simp: globTokens_def)
qed

lemma deletePattern_plainGlob:
  assumes "plainGlob p" and "list_all (\<lambda>q. list_all (\<lambda>c. \<not> isLineTerminator c) (fst q)) (cache s)"
  shows "deletePattern p s =
           Some (length (filter (\<lambda>q. globMatch_spec p (fst q)) (cache s)),
                 s\<lparr>cache := filter (\<lambda>q. \<not> globMatch_spec p (fst q)) (cache s),
                   deletes := deletes s + length (filter (\<lambda>q. globMatch_spec p (fst q)) (cache s))\<rparr>)"
proof -
  have eq: "rxMatch (globTokens p) (fst q) = globMatch_spec p (fst q)" if "q \<in> set (cache s)" for q
    using assms(2) that by (simp add: list_all_iff rxMatch_globTokens)
  have f1: "filter (\<lambda>q. rxMatch (globTokens p) (fst q)) (cache s)
              = filter (\<lambda>q. globMatch_spec p (fst q)) (cache s)"
    using eq by (auto intro!: filter_cong)
  have f2: "filter (\<lambda>q. \<not> rxMatch (globTokens p) (fst q)) (cache s)
              = filter (\<lambda>q. \<not> globMatch_spec p (fst q)) (cache s)"
    using eq by (auto intro!: filter_cong)
  show ?thesis
    using deletePattern_result [OF parseRegex_plainGlob [OF assms(1)], of s]
    by (simp add: f1 f2)
qed

text \<open>Reading back what a helper has to look at.\<close>

lemma get_absent_again:
  "fst (get k clk s) = JNull \<Longrightarrow> fst (get k clk' (snd (get k clk s))) = JNull"
  by (auto simp: get_def delete_conv' split: option.splits if_splits)

lemma get_keeps_config:
  "defaultTTL (snd (get k clk s)) = defaultTTL s \<and> maxSize (snd (get k clk s)) = maxSize s
   \<and> sets (snd (get k clk s)) = sets s"
  by (simp add: get_def split: option.splits)

lemma get_absent_store:
  "map_of (cache s) k = None \<Longrightarrow> get k clk s = (JNull, s\<lparr>misses := misses s + 1\<rparr>)"
  by (simp add: get_def)

lemma get_fresh_entry:
  assumes "map_of (cache s) k = Some (mkEntry v ttl clk)" and "0 \<le> ttl"
  shows "fst (get k clk s) = v"
  using assms by (simp add: get_def mkEntry_def expired_def)

lemma resolveTTL_default_nonneg:
  assumes "\<forall>d. dflt = Some d \<longrightarrow> 0 \<le> d"
  shows "0 \<le> resolveTTL None dflt clk"
  using assms getSecondsUntilMidnight_nonneg [of clk]
  by (simp add: resolveTTL_def split: option.splits)

text \<open>Printing and rounding of the hit rate.\<close>

lemma showNat_small: "n < 10 \<Longrightarrow> showNat n = [digitChar n]"
  by (simp add: showNat.simps)

lemma showNat_large: "\<not> n < 10 \<Longrightarrow> showNat n = showNat (n div 10) @ [digitChar (n mod 10)]"
  by (subst showNat.simps) simp

lemma digitChar_code: "d < 10 \<Longrightarrow> of_char (digitChar d) = (48 + d :: nat)"
proof -
  assume "d < 10"
  then have "d \<in> {0, 1, 2, 3, 4, 5, 6, 7, 8, 9}"
    by auto
  then show ?thesis
    by (auto simp: digitChar_def)
qed

lemma readNat_showNat: "readNat (showNat n) = n"
proof (induction n rule: showNat.induct)
  case (1 n)
  show ?case
  proof (cases "n < 10")
    case True
    then show ?thesis by (simp add: readNat_def showNat_small digitChar_code)
  next
    case False
    then have "readNat (showNat (n div 10)) = n div 10" using 1 by simp
    then show ?thesis
      using False by (simp add: readNat_def showNat_large digitChar_code)
  qed
qed

text \<open>
  The rounding of a quotient to an integer is off by at most one half, and the double of
  a quotient below \<open>2 ^ 52\<close> has a negative exponent and a relative error of at most
  \<open>2 ^ - 53\<close>.
\<close>

lemma floorlog2_0: "floorlog 2 0 = 0"
  by (simp add: floorlog_def)

lemma floorlog2_pos: "0 < n \<Longrightarrow> floorlog 2 n = floorlog 2 (n div 2) + 1"
  by (subst compute_floorlog) simp











text \<open>The doubles of some hit rates, evaluated.\<close>

lemma flQuot_eval_23_160:
  "flQuot 23 160 = Dbl 5179139571476070 (- 55)"
  by (simp add: flQuot_def scaled_def roundNearestEven_def floorlog2_pos floorlog2_0 Let_def)




text \<open>The factory on the names it knows and on names that are no property at all.\<close>

lemma create_memory:
  "create cacheTypes0 \<lparr>cfg_type = Some ''memory'', cfg_options = Some opts\<rparr>
     = Inr (InMemoryInstance (new_js opts))"
  by (simp add: create_def cacheTypes0_def lookupType_def)

lemma create_default:
  "create cacheTypes0 \<lparr>cfg_type = None, cfg_options = None\<rparr>
     = Inr (InMemoryInstance (new_js \<lparr>opt_defaultTTL = None, opt_maxSize = None\<rparr>))"
  by (simp add: create_def cacheTypes0_def lookupType_def)

lemma create_registered:
  assumes "register name c reg = Some reg'" and "name \<noteq> []"
  shows "create reg' \<lparr>cfg_type = Some name, cfg_options = Some opts\<rparr> = Inr (construct c opts)"
  using assms
  by (auto simp: register_def create_def lookupType_def update_conv' split: if_splits)

lemma construct_instanceOf: "instanceOf (construct c opts) c"
  by (cases c) simp_all

lemma create_unknown:
  assumes "t \<noteq> []" and "map_of reg t = None" and "map_of objectPrototype t = None"
  shows "create reg \<lparr>cfg_type = Some t, cfg_options = opts\<rparr> = Inl (UnknownCacheType t)"
  using assms by (simp add: create_def lookupType_def)

section \<open>Claims\<close>

text \<open>
  C1. Eviction on \<^verbatim>\<open>set\<close>. The size check of \<^verbatim>\<open>set\<close> does not ask whether the key is
  already stored: in a store at capacity (two entries, \<^verbatim>\<open>maxSize = 2\<close>, keys \<^verbatim>\<open>k1\<close> then
  \<^verbatim>\<open>k2\<close>), setting the present key \<^verbatim>\<open>k2\<close> again deletes the oldest entry \<^verbatim>\<open>k1\<close> and leaves
  \<^verbatim>\<open>k2\<close> alone in the store, on both tiers.
\<close>

theorem set_present_key_at_capacity_evicts_oldest:
  "map fst (cache fullStore) = [''k1'', ''k2'']
 \<and> int (length (cache fullStore)) = maxSize fullStore
 \<and> map fst (cache (set_js ''k2'' (JNum 5) None (clockAt 0) fullStore)) = [''k2'']
 \<and> map fst (cache (set_ts ''k2'' (JNum 5) None (clockAt 0) fullStore)) = [''k2'']"
  by (simp add: fullStore_def set_js_def set_ts_def enforceMaxSize_js_def enforceMaxSize_ts_def Let_def)

text \<open>
  C2. The counter \<^verbatim>\<open>deletes\<close> counts the removals asked for, and only those:
  \<^verbatim>\<open>delete\<close> adds one when the key is stored (and nothing otherwise), \<^verbatim>\<open>deletePattern\<close>
  adds the number of keys it removes, which is the number by which the store shrinks;
  \<^verbatim>\<open>get\<close>, \<^verbatim>\<open>has\<close> and the sweep leave the counter as it is, whether or not they remove
  an expired entry.
\<close>

theorem deletes_counts_explicit_removals_only:
  "(map_of (cache s) k \<noteq> None \<longrightarrow>
       fst (delete k s) \<and> deletes (snd (delete k s)) = deletes s + 1)
 \<and> (map_of (cache s) k = None \<longrightarrow>
       \<not> fst (delete k s) \<and> deletes (snd (delete k s)) = deletes s)
 \<and> (deletePattern pattern s = Some (n, s') \<longrightarrow>
       deletes s' = deletes s + n \<and> length (cache s') + n = length (cache s))
 \<and> deletes (snd (get k clk s)) = deletes s
 \<and> deletes (snd (has k clk s)) = deletes s
 \<and> deletes (cleanup clk s) = deletes s"
proof -
  have d1: "map_of (cache s) k \<noteq> None \<longrightarrow>
       fst (delete k s) \<and> deletes (snd (delete k s)) = deletes s + 1"
    by (simp add: delete_def Let_def)
  have d2: "map_of (cache s) k = None \<longrightarrow>
       \<not> fst (delete k s) \<and> deletes (snd (delete k s)) = deletes s"
    by (simp add: delete_def Let_def)
  have d3: "deletePattern pattern s = Some (n, s') \<longrightarrow>
       deletes s' = deletes s + n \<and> length (cache s') + n = length (cache s)"
  proof
    assume a: "deletePattern pattern s = Some (n, s')"
    then obtain regex where r: "parseRegex (globToRegex pattern) = Some regex"
      by (auto simp: deletePattern_def split: option.splits)
    from a deletePattern_result [OF r, of s]
    have n: "n = length (filter (\<lambda>p. rxMatch regex (fst p)) (cache s))"
      and s': "s' = s\<lparr>cache := filter (\<lambda>p. \<not> rxMatch regex (fst p)) (cache s),
                       deletes := deletes s + n\<rparr>"
      by auto
    show "deletes s' = deletes s + n \<and> length (cache s') + n = length (cache s)"
      using length_filter_split [of "\<lambda>p. rxMatch regex (fst p)" "cache s"]
      by (simp add: s' n)
  qed
  have g: "deletes (snd (get k clk s)) = deletes s"
    by (simp add: get_def split: option.splits)
  have h: "deletes (snd (has k clk s)) = deletes s"
    by (simp add: has_def split: option.splits)
  have c: "deletes (cleanup clk s) = deletes s"
    by (simp add: cleanup_def)
  from d1 d2 d3 g h c show ?thesis by blast
qed

theorem deletes_counts_explicit_removals_only_witness:
  "fst (delete ''books:5'' booksStore)
 \<and> deletes (snd (delete ''books:5'' booksStore)) = 1
 \<and> \<not> fst (delete ''books:6'' booksStore)
 \<and> deletes (snd (delete ''books:6'' booksStore)) = 0
 \<and> fst (the (deletePattern ''books:*'' booksStore)) = 2
 \<and> deletes (snd (the (deletePattern ''books:*'' booksStore))) = 2
 \<and> length (cache (snd (the (deletePattern ''books:*'' booksStore)))) + 2 = 3"
  using deletes_counts_explicit_removals_only
          [of booksStore "''books:5''" "''books:*''" 2
              "booksStore\<lparr>cache := [(''users:all'', \<lparr>val = JArr [], createdAt = 0, expiresAt = None\<rparr>)],
                          deletes := 2\<rparr>" "clockAt 0"]
        deletes_counts_explicit_removals_only
          [of booksStore "''books:6''" "''books:*''" 2
              "booksStore\<lparr>cache := [(''users:all'', \<lparr>val = JArr [], createdAt = 0, expiresAt = None\<rparr>)],
                          deletes := 2\<rparr>" "clockAt 0"]
        deletePattern_books_example
  by (simp add: booksStore_def)

text \<open>
  C2, as first stated, fails: an entry that expired at 1000 is stored; at time 2000
  each of \<^verbatim>\<open>get\<close>, \<^verbatim>\<open>has\<close> and the sweep removes it, and \<^verbatim>\<open>deletes\<close> is what it was.
\<close>

theorem expiry_removal_leaves_deletes_counterexample:
  "map_of (cache expiredStore) ''books:all'' \<noteq> None
 \<and> map_of (cache (snd (get ''books:all'' (clockAt 2000) expiredStore))) ''books:all'' = None
 \<and> deletes (snd (get ''books:all'' (clockAt 2000) expiredStore)) = deletes expiredStore
 \<and> map_of (cache (snd (has ''books:all'' (clockAt 2000) expiredStore))) ''books:all'' = None
 \<and> deletes (snd (has ''books:all'' (clockAt 2000) expiredStore)) = deletes expiredStore
 \<and> map_of (cache (cleanup (clockAt 2000) expiredStore)) ''books:all'' = None
 \<and> deletes (cleanup (clockAt 2000) expiredStore) = deletes expiredStore"
  by (simp add: expiredStore_def clockAt_def get_def has_def cleanup_def expired_def)

text \<open>
  C3. \<^verbatim>\<open>removeFromArray(arrayKey, id)\<close> on a key whose read returns an array sets the key
  again, without a TTL argument, to the array filtered of every element whose \<^verbatim>\<open>id\<close> is
  the given one: the length goes down by the number of such elements, by exactly one
  when the ids of the array are distinct and the id occurs, and the elements are the same
  when it does not occur. When the read returns \<^verbatim>\<open>null\<close> the call does nothing beyond
  that read, no \<^verbatim>\<open>set\<close> happens, and a store without the key is left as it is.
\<close>

theorem removeFromArray_filters_all_with_id:
  "(fst (get arrayKey clk s) = JArr xs \<longrightarrow>
       fst (removeFromArray arrayKey ident clk s) = None
     \<and> map_of (cache (snd (removeFromArray arrayKey ident clk s))) arrayKey
          = Some (mkEntry (JArr (filter (\<lambda>i. item_id i \<noteq> ident) xs))
                    (resolveTTL None (defaultTTL s) clk) clk)
     \<and> length (filter (\<lambda>i. item_id i \<noteq> ident) xs) + length (filter (\<lambda>i. item_id i = ident) xs)
          = length xs
     \<and> (distinct (map item_id xs) \<and> ident \<in> item_id ` set xs \<longrightarrow>
          length (filter (\<lambda>i. item_id i \<noteq> ident) xs) + 1 = length xs)
     \<and> (ident \<notin> item_id ` set xs \<longrightarrow> filter (\<lambda>i. item_id i \<noteq> ident) xs = xs))
 \<and> (fst (get arrayKey clk s) = JNull \<longrightarrow>
       removeFromArray arrayKey ident clk s = (None, snd (get arrayKey clk s))
     \<and> sets (snd (removeFromArray arrayKey ident clk s)) = sets s)
 \<and> (map_of (cache s) arrayKey = None \<longrightarrow>
       cache (snd (removeFromArray arrayKey ident clk s)) = cache s)"
proof -
  obtain cached s1 where g: "get arrayKey clk s = (cached, s1)"
    by (cases "get arrayKey clk s")
  have cfg: "defaultTTL s1 = defaultTTL s" "sets s1 = sets s"
    using get_keeps_config [of arrayKey clk s] g by simp_all
  let ?ys = "filter (\<lambda>i. item_id i \<noteq> ident) xs"
  have a: "cached = JNull \<Longrightarrow> removeFromArray arrayKey ident clk s = (None, s1)"
    using g by (simp add: removeFromArray_def)
  have c: "map_of (cache s) arrayKey = None \<Longrightarrow>
             cache (snd (removeFromArray arrayKey ident clk s)) = cache s"
    by (simp add: removeFromArray_def get_absent_store)
  have d: "cached = JArr xs \<Longrightarrow>
             removeFromArray arrayKey ident clk s = (None, set_ts arrayKey (JArr ?ys) None clk s1)"
    using g by (simp add: removeFromArray_def)
  have e: "map_of (cache (set_ts arrayKey (JArr ?ys) None clk s1)) arrayKey
             = Some (mkEntry (JArr ?ys) (resolveTTL None (defaultTTL s) clk) clk)"
    using map_of_set_ts [of arrayKey "JArr ?ys" None clk s1] cfg by simp
  have l: "length ?ys + length (filter (\<lambda>i. item_id i = ident) xs) = length xs"
    using length_filter_split [of "\<lambda>i. item_id i \<noteq> ident" xs] by simp
  have one: "length (filter (\<lambda>i. item_id i = ident) xs) = 1"
    if "distinct (map item_id xs)" "ident \<in> item_id ` set xs"
    using that
  proof (induction xs)
    case Nil
    then show ?case by simp
  next
    case (Cons x xs)
    show ?case
    proof (cases "item_id x = ident")
      case True
      from Cons.prems True have "item_id x \<notin> item_id ` set xs"
        by simp
      with True have "\<forall>i\<in>set xs. item_id i \<noteq> ident"
        by blast
      then have "filter (\<lambda>i. item_id i = ident) xs = []"
        by (simp add: filter_empty_conv)
      with True show ?thesis by simp
    next
      case False
      with Cons show ?thesis by auto
    qed
  qed
  have none: "ident \<notin> item_id ` set xs \<Longrightarrow> ?ys = xs"
    by (auto simp: filter_id_conv)
  have one': "distinct (map item_id xs) \<and> ident \<in> item_id ` set xs \<longrightarrow> length ?ys + 1 = length xs"
    using l one by auto
  show ?thesis
    using a c d e l one' none cfg g by simp
qed

theorem removeFromArray_filters_all_with_id_witness:
  "map_option val
     (map_of (cache (snd (removeFromArray ''books:all'' ''8'' (clockAt 5) listStore))) ''books:all'')
     = Some (JArr [\<lparr>item_id = ''7'', item_body = ()\<rparr>, \<lparr>item_id = ''9'', item_body = ()\<rparr>])
 \<and> map_option val
     (map_of (cache (snd (removeFromArray ''books:all'' ''5'' (clockAt 5) listStore))) ''books:all'')
     = Some (JArr [\<lparr>item_id = ''7'', item_body = ()\<rparr>, \<lparr>item_id = ''8'', item_body = ()\<rparr>,
                   \<lparr>item_id = ''9'', item_body = ()\<rparr>])
 \<and> removeFromArray ''writers:all'' ''5'' (clockAt 5) booksStore = (None, booksStore\<lparr>misses := 1\<rparr>)"
proof -
  let ?xs = "[\<lparr>item_id = ''7'', item_body = ()\<rparr>, \<lparr>item_id = ''8'', item_body = ()\<rparr>,
              \<lparr>item_id = ''9'', item_body = ()\<rparr>]"
  have miss: "fst (get ''writers:all'' (clockAt 5) booksStore) = JNull"
    and miss': "snd (get ''writers:all'' (clockAt 5) booksStore) = booksStore\<lparr>misses := 1\<rparr>"
    by (simp_all add: get_def booksStore_def)
  have hit: "fst (get ''books:all'' (clockAt 5) listStore) = JArr ?xs"
    by (simp add: get_def listStore_def expired_def)
  from hit
    removeFromArray_filters_all_with_id
      [where arrayKey = "''books:all''" and clk = "clockAt 5" and s = listStore and ident = "''8''"
         and xs = ?xs]
  have a: "map_of (cache (snd (removeFromArray ''books:all'' ''8'' (clockAt 5) listStore))) ''books:all''
             = Some (mkEntry (JArr (filter (\<lambda>i. item_id i \<noteq> ''8'') ?xs))
                       (resolveTTL None (defaultTTL listStore) (clockAt 5)) (clockAt 5))"
    by blast
  from hit
    removeFromArray_filters_all_with_id
      [where arrayKey = "''books:all''" and clk = "clockAt 5" and s = listStore and ident = "''5''"
         and xs = ?xs]
  have b: "map_of (cache (snd (removeFromArray ''books:all'' ''5'' (clockAt 5) listStore))) ''books:all''
             = Some (mkEntry (JArr (filter (\<lambda>i. item_id i \<noteq> ''5'') ?xs))
                       (resolveTTL None (defaultTTL listStore) (clockAt 5)) (clockAt 5))"
    by blast
  from miss
    removeFromArray_filters_all_with_id
      [where arrayKey = "''writers:all''" and clk = "clockAt 5" and s = booksStore and ident = "''5''"
         and xs = "[]"]
  have c: "removeFromArray ''writers:all'' ''5'' (clockAt 5) booksStore
             = (None, snd (get ''writers:all'' (clockAt 5) booksStore))"
    by blast
  from a b c miss' show ?thesis by (simp add: mkEntry_def)
qed

text \<open>
  C3, as first stated, fails. The cached array holds two records with the id \<^verbatim>\<open>7\<close> and one
  with the id \<^verbatim>\<open>8\<close>: removing \<^verbatim>\<open>7\<close> leaves one element, two fewer. Removing the id \<^verbatim>\<open>9\<close>,
  which no element has, still sets the key: the entry is a new one (created at 5, with an
  expiry from the default TTL) and \<^verbatim>\<open>sets\<close> has grown.
\<close>

theorem removeFromArray_counterexample:
  "map_option val (map_of (cache dupStore) ''books:all'')
     = Some (JArr [\<lparr>item_id = ''7'', item_body = ()\<rparr>, \<lparr>item_id = ''7'', item_body = ()\<rparr>,
                   \<lparr>item_id = ''8'', item_body = ()\<rparr>])
 \<and> map_option val
       (map_of (cache (snd (removeFromArray ''books:all'' ''7'' (clockAt 5) dupStore))) ''books:all'')
     = Some (JArr [\<lparr>item_id = ''8'', item_body = ()\<rparr>])
 \<and> map_of (cache (snd (removeFromArray ''books:all'' ''9'' (clockAt 5) dupStore))) ''books:all''
     = Some \<lparr>val = JArr [\<lparr>item_id = ''7'', item_body = ()\<rparr>, \<lparr>item_id = ''7'', item_body = ()\<rparr>,
                          \<lparr>item_id = ''8'', item_body = ()\<rparr>],
             createdAt = 5, expiresAt = Some 300005\<rparr>
 \<and> map_of (cache dupStore) ''books:all''
     \<noteq> map_of (cache (snd (removeFromArray ''books:all'' ''9'' (clockAt 5) dupStore))) ''books:all''
 \<and> sets (snd (removeFromArray ''books:all'' ''9'' (clockAt 5) dupStore)) = sets dupStore + 1"
  by (simp add: dupStore_def clockAt_def removeFromArray_def get_def expired_def set_ts_def
        enforceMaxSize_ts_def resolveTTL_def mkEntry_def)




text \<open>
  C5. The conversion of \<^verbatim>\<open>deletePattern\<close> copies every character other than \<^verbatim>\<open>*\<close> and
  \<^verbatim>\<open>?\<close> into the regular expression unescaped, and its dot matches no line terminator.
  With the keys \<^verbatim>\<open>v1.0\<close>, \<^verbatim>\<open>v1x0\<close> and \<^verbatim>\<open>books:\<close> followed by a line feed: the glob
  \<^verbatim>\<open>v1.0\<close>, which holds no wildcard, removes \<^verbatim>\<open>v1x0\<close> as well as \<^verbatim>\<open>v1.0\<close> and returns 2;
  the glob \<^verbatim>\<open>books:*\<close> removes nothing and returns 0, although the third key starts with
  \<^verbatim>\<open>books:\<close>.
\<close>

theorem deletePattern_dot_is_wildcard:
  "map_option (\<lambda>r. (fst r, map fst (cache (snd r)))) (deletePattern ''v1.0'' dotStore)
     = Some (2, [''books:'' @ [CHR 0x0A]])
 \<and> map_option (\<lambda>r. (fst r, map fst (cache (snd r)))) (deletePattern ''books:*'' dotStore)
     = Some (0, [''v1.0'', ''v1x0'', ''books:'' @ [CHR 0x0A]])"
  by (simp add: deletePattern_def globToRegex_def replaceAll_def isSyntaxCharacter_def
        dotStore_def isLineTerminator_def)



text \<open>
  C7. \<^verbatim>\<open>addToArray(arrayKey, item)\<close> on a key whose read returns \<^verbatim>\<open>null\<close> does nothing beyond
  that read: no \<^verbatim>\<open>set\<close> happens, a later \<^verbatim>\<open>get\<close> at any clock reading still returns
  \<^verbatim>\<open>null\<close>, and a store without the key is left as it is. When the read returns an array
  of length N, the key is set again to the array with the item appended, of length N + 1,
  in an entry whose expiry comes from the TTL rule without an explicit TTL; with a
  default TTL that is not negative a \<^verbatim>\<open>get\<close> right after returns that array.
\<close>

theorem addToArray_uncached_noop_cached_appends:
  "(fst (get arrayKey clk s) = JNull \<longrightarrow>
       addToArray arrayKey itm clk s = (None, snd (get arrayKey clk s))
     \<and> sets (snd (addToArray arrayKey itm clk s)) = sets s
     \<and> fst (get arrayKey clk' (snd (addToArray arrayKey itm clk s))) = JNull)
 \<and> (map_of (cache s) arrayKey = None \<longrightarrow>
       cache (snd (addToArray arrayKey itm clk s)) = cache s)
 \<and> (fst (get arrayKey clk s) = JArr xs \<longrightarrow>
       fst (addToArray arrayKey itm clk s) = None
     \<and> map_of (cache (snd (addToArray arrayKey itm clk s))) arrayKey
          = Some (mkEntry (JArr (xs @ [itm])) (resolveTTL None (defaultTTL s) clk) clk)
     \<and> length (xs @ [itm]) = length xs + 1
     \<and> itm \<in> set (xs @ [itm])
     \<and> ((\<forall>d. defaultTTL s = Some d \<longrightarrow> 0 \<le> d) \<longrightarrow>
          fst (get arrayKey clk (snd (addToArray arrayKey itm clk s))) = JArr (xs @ [itm])))"
proof -
  obtain cached s1 where g: "get arrayKey clk s = (cached, s1)"
    by (cases "get arrayKey clk s")
  have cfg: "defaultTTL s1 = defaultTTL s" "sets s1 = sets s"
    using get_keeps_config [of arrayKey clk s] g by simp_all
  have a: "cached = JNull \<Longrightarrow> addToArray arrayKey itm clk s = (None, s1)"
    using g by (simp add: addToArray_def)
  have b: "cached = JNull \<Longrightarrow> fst (get arrayKey clk' s1) = JNull"
    using get_absent_again [of arrayKey clk s clk'] g by simp
  have c: "map_of (cache s) arrayKey = None \<Longrightarrow> cache (snd (addToArray arrayKey itm clk s)) = cache s"
    by (simp add: addToArray_def get_absent_store)
  have d: "cached = JArr xs \<Longrightarrow>
             addToArray arrayKey itm clk s = (None, set_ts arrayKey (JArr (xs @ [itm])) None clk s1)"
    using g by (simp add: addToArray_def)
  have e: "map_of (cache (set_ts arrayKey (JArr (xs @ [itm])) None clk s1)) arrayKey
             = Some (mkEntry (JArr (xs @ [itm])) (resolveTTL None (defaultTTL s) clk) clk)"
    using map_of_set_ts [of arrayKey "JArr (xs @ [itm])" None clk s1] cfg by simp
  have f: "(\<forall>d. defaultTTL s = Some d \<longrightarrow> 0 \<le> d) \<Longrightarrow>
             fst (get arrayKey clk (set_ts arrayKey (JArr (xs @ [itm])) None clk s1)) = JArr (xs @ [itm])"
    using get_fresh_entry [OF e] resolveTTL_default_nonneg [of "defaultTTL s" clk] by simp
  show ?thesis
    using a b c d e f cfg g by simp
qed

theorem addToArray_uncached_noop_cached_appends_witness:
  "addToArray ''writers:all'' \<lparr>item_id = ''1'', item_body = ()\<rparr> (clockAt 5) booksStore
     = (None, booksStore\<lparr>misses := 1\<rparr>)
 \<and> fst (get ''writers:all'' (clockAt 6)
       (snd (addToArray ''writers:all'' \<lparr>item_id = ''1'', item_body = ()\<rparr> (clockAt 5) booksStore)))
     = JNull
 \<and> fst (get ''books:all'' (clockAt 5)
       (snd (addToArray ''books:all'' \<lparr>item_id = ''1'', item_body = ()\<rparr> (clockAt 5) listStore)))
     = JArr [\<lparr>item_id = ''7'', item_body = ()\<rparr>, \<lparr>item_id = ''8'', item_body = ()\<rparr>,
             \<lparr>item_id = ''9'', item_body = ()\<rparr>, \<lparr>item_id = ''1'', item_body = ()\<rparr>]"
proof -
  let ?i = "\<lparr>item_id = ''1'', item_body = ()\<rparr>"
  let ?xs = "[\<lparr>item_id = ''7'', item_body = ()\<rparr>, \<lparr>item_id = ''8'', item_body = ()\<rparr>,
              \<lparr>item_id = ''9'', item_body = ()\<rparr>]"
  have miss: "fst (get ''writers:all'' (clockAt 5) booksStore) = JNull"
    and miss': "snd (get ''writers:all'' (clockAt 5) booksStore) = booksStore\<lparr>misses := 1\<rparr>"
    by (simp_all add: get_def booksStore_def)
  have hit: "fst (get ''books:all'' (clockAt 5) listStore) = JArr ?xs"
    by (simp add: get_def listStore_def expired_def)
  have dflt: "\<forall>d. defaultTTL listStore = Some d \<longrightarrow> 0 \<le> d"
    by (simp add: listStore_def)
  from miss
    addToArray_uncached_noop_cached_appends
      [where arrayKey = "''writers:all''" and clk = "clockAt 5" and clk' = "clockAt 6"
         and s = booksStore and itm = ?i and xs = "[]"]
  have a: "addToArray ''writers:all'' ?i (clockAt 5) booksStore
             = (None, snd (get ''writers:all'' (clockAt 5) booksStore))"
    and b: "fst (get ''writers:all'' (clockAt 6)
              (snd (addToArray ''writers:all'' ?i (clockAt 5) booksStore))) = JNull"
    by blast+
  from hit dflt
    addToArray_uncached_noop_cached_appends
      [where arrayKey = "''books:all''" and clk = "clockAt 5" and clk' = "clockAt 6"
         and s = listStore and itm = ?i and xs = ?xs]
  have c: "fst (get ''books:all'' (clockAt 5)
              (snd (addToArray ''books:all'' ?i (clockAt 5) listStore))) = JArr (?xs @ [?i])"
    by blast
  from a b c miss' show ?thesis by simp
qed

text \<open>
  C8. The factory looks the type up as a property of the object \<^verbatim>\<open>cacheTypes\<close>, and a
  property read also finds what the object inherits. The type \<^verbatim>\<open>constructor\<close> is no key of
  the registry, yet \<^verbatim>\<open>create\<close> raises nothing for it: the lookup yields the function
  \<^verbatim>\<open>Object\<close>, which passes the test for an unknown type, and \<^verbatim>\<open>new Object(options)\<close> returns
  the options object, which is handed to the caller in place of a cache.
\<close>

theorem create_inherited_name_returns_options:
  "(create cacheTypes0 \<lparr>cfg_type = Some ''constructor'', cfg_options = None\<rparr>
      :: js_error + unit cache_instance)
     = Inr (OptionsObject \<lparr>opt_defaultTTL = None, opt_maxSize = None\<rparr>)
 \<and> map_of cacheTypes0 ''constructor'' = None"
  by (simp add: create_def cacheTypes0_def lookupType_def objectPrototype_def)

text \<open>
  C9. For every key and value, \<^verbatim>\<open>set(k, v, 0)\<close> stores an entry whose \<^verbatim>\<open>expiresAt\<close> is
  \<^verbatim>\<open>null\<close>: a TTL of zero is read as "no expiry", not as "expired at once". On both
  tiers the entry is there after the call, and a \<^verbatim>\<open>get\<close> at any clock reading returns
  the value and counts a hit.
\<close>

theorem set_zero_ttl_never_expires:
  "map_of (cache (set_js k v (Some 0) clk s)) k
     = Some \<lparr>val = v, createdAt = now clk, expiresAt = None\<rparr>
   \<and> map_of (cache (set_ts k v (Some 0) clk s)) k
     = Some \<lparr>val = v, createdAt = now clk, expiresAt = None\<rparr>
   \<and> get k clk' (set_js k v (Some 0) clk s)
     = (v, (set_js k v (Some 0) clk s)\<lparr>hits := hits s + 1\<rparr>)
   \<and> get k clk' (set_ts k v (Some 0) clk s)
     = (v, (set_ts k v (Some 0) clk s)\<lparr>hits := hits s + 1\<rparr>)"
proof -
  have e: "mkEntry v (resolveTTL (Some 0) (defaultTTL s) clk) clk
             = \<lparr>val = v, createdAt = now clk, expiresAt = None\<rparr>"
    by (simp add: mkEntry_def resolveTTL_def)
  have hj: "hits (set_js k v (Some 0) clk s) = hits s"
    by (simp add: set_js_def Let_def)
  have ht: "hits (set_ts k v (Some 0) clk s) = hits s"
    by (simp add: set_ts_def Let_def)
  show ?thesis
    using map_of_set_js [of k v "Some 0" clk s] map_of_set_ts [of k v "Some 0" clk s]
    by (simp add: e get_def expired_def hj ht)
qed

text \<open>
  C10. \<^verbatim>\<open>delete\<close> looks at physical presence only. When an entry whose \<^verbatim>\<open>expiresAt\<close> has
  passed is still stored, \<^verbatim>\<open>delete\<close> returns \<^verbatim>\<open>true\<close>, removes it and adds one to
  \<^verbatim>\<open>deletes\<close>, while \<^verbatim>\<open>get\<close> and \<^verbatim>\<open>has\<close> on that same state report the key absent.
\<close>

theorem delete_ignores_expiry:
  assumes "map_of (cache s) k = Some e" and "expiresAt e = Some x" and "x \<noteq> 0" and "now clk > x"
  shows "fst (delete k s) = True
       \<and> deletes (snd (delete k s)) = deletes s + 1
       \<and> map_of (cache (snd (delete k s))) k = None
       \<and> fst (get k clk s) = JNull
       \<and> fst (has k clk s) = False"
  using assms
  by (simp add: delete_def get_def has_def expired_def Let_def delete_conv')

theorem delete_ignores_expiry_witness:
  "fst (delete ''books:all'' expiredStore) = True
 \<and> deletes (snd (delete ''books:all'' expiredStore)) = 1
 \<and> map_of (cache (snd (delete ''books:all'' expiredStore))) ''books:all'' = None
 \<and> fst (get ''books:all'' (clockAt 2000) expiredStore) = JNull
 \<and> fst (has ''books:all'' (clockAt 2000) expiredStore) = False"
  using delete_ignores_expiry
    [of expiredStore "''books:all''" "\<lparr>val = JNum 7, createdAt = 0, expiresAt = Some 1000\<rparr>" 1000
        "clockAt 2000"]
  by (simp add: expiredStore_def clockAt_def)

end
